theory Spec2Isabelle
  imports
    Complex_Main
    "HOL-Library.Multiset"
    "HOL-Library.Char_ord"
    "HOL-Library.List_Lexorder"
    "HOL-Library.Product_Lexorder"
    "HOL-Library.Word"
begin

section \<open>The crime table\<close>

text \<open>
  One row of \<^verbatim>\<open>data/crime_data.csv\<close> as \<^verbatim>\<open>pd.read_csv\<close> holds it, with the six columns
  the dashboard reads. A cell of a key column may be missing (blank in the file, read as
  NaN): that is \<open>None\<close>. The two coordinates and the year are only ever compared, as
  grouping keys, never computed with. \<open>crime_count\<close> is an int64 column: sums over it
  wrap around at 64 bits, and \<open>sint\<close> reads a value as the signed number pandas shows.
  (A file with a blank or non-integer count makes that column floating-point, which is
  outside this model.)
\<close>

type_synonym int64 = "64 word"

record row =
  station :: "string option"
  category :: "string option"
  location_x :: "rat option"
  location_y :: "rat option"
  year :: "int option"
  crime_count :: int64

type_synonym table = "row list"

text \<open>
  A pandas Series with an index of keys and int64 values (and, after
  \<^verbatim>\<open>reset_index()\<close>, a frame whose key columns come first and whose last column is
  \<open>crime_count\<close>): the list of its (key, value) entries in display order.
\<close>

type_synonym 'k series = "('k \<times> int64) list"

section \<open>The library calls the dashboard makes\<close>

text \<open>
  \<^verbatim>\<open>data.groupby(key)["crime_count"].sum()\<close>: the rows are read in order. A row whose
  key is missing is left out (\<^verbatim>\<open>dropna=True\<close> is the default); every other row adds
  its count to the entry of its key, and a key met for the first time gets an entry at
  its place in ascending key order (\<^verbatim>\<open>groupby\<close> sorts the group keys).
\<close>

fun add_to_group :: "'k::linorder \<Rightarrow> int64 \<Rightarrow> 'k series \<Rightarrow> 'k series" where
  "add_to_group k c [] = [(k, c)]"
| "add_to_group k c ((k', v) # g) =
     (if k = k' then (k', v + c) # g
      else if k < k' then (k, c) # (k', v) # g
      else (k', v) # add_to_group k c g)"

definition groupby_sum :: "(row \<Rightarrow> 'k::linorder option) \<Rightarrow> table \<Rightarrow> 'k series" where
  "groupby_sum key t =
     foldl (\<lambda>g r. case key r of None \<Rightarrow> g | Some k \<Rightarrow> add_to_group k (crime_count r) g) [] t"

text \<open>
  The keys of the two groupings by several columns: a row has such a key when none of
  the columns is missing.
\<close>

definition station_location :: "row \<Rightarrow> (string \<times> rat \<times> rat) option" where
  "station_location r =
     (case station r of None \<Rightarrow> None | Some n \<Rightarrow>
      (case location_x r of None \<Rightarrow> None | Some x \<Rightarrow>
       (case location_y r of None \<Rightarrow> None | Some y \<Rightarrow> Some (n, x, y))))"

definition location :: "row \<Rightarrow> (rat \<times> rat) option" where
  "location r =
     (case location_x r of None \<Rightarrow> None | Some x \<Rightarrow>
      (case location_y r of None \<Rightarrow> None | Some y \<Rightarrow> Some (x, y)))"

text \<open>
  \<^verbatim>\<open>.sort_values(ascending=False)\<close>: by signed value, largest first. The source does
  not say which of two entries with equal values comes first, and pandas' default sort
  does not keep them in their old order. The order among equal values is therefore a
  parameter, \<open>tie\<close>: any function ranking the entries. Every ordering by descending
  value of a series with distinct entries comes from some \<open>tie\<close> (lemma
  \<open>sort_values_desc_any_order\<close>), and nothing below fixes one.
\<close>

definition sort_values_desc :: "('k \<times> int64 \<Rightarrow> nat) \<Rightarrow> 'k series \<Rightarrow> 'k series" where
  "sort_values_desc tie s = sort_key (\<lambda>e. (- sint (snd e), tie e)) s"

text \<open>\<^verbatim>\<open>.head(n)\<close> and \<^verbatim>\<open>.iloc[n:]\<close>: both clamp at the end of the series.\<close>

definition head :: "nat \<Rightarrow> 'a list \<Rightarrow> 'a list" where
  "head n s = take n s"

definition iloc_from :: "nat \<Rightarrow> 'a list \<Rightarrow> 'a list" where
  "iloc_from n s = drop n s"

text \<open>\<^verbatim>\<open>.sum()\<close> of an int64 Series: 64-bit addition; the empty sum is 0.\<close>

definition series_sum :: "'k series \<Rightarrow> int64" where
  "series_sum s = sum_list (map snd s)"

text \<open>
  \<^verbatim>\<open>s[label] = v\<close>: a label that is in the index has its value replaced, in place;
  a label that is not is appended as a new last entry.
\<close>

fun setitem :: "'k series \<Rightarrow> 'k \<Rightarrow> int64 \<Rightarrow> 'k series" where
  "setitem [] k v = [(k, v)]"
| "setitem ((k', v') # s) k v =
     (if k' = k then (k', v) # s else (k', v') # setitem s k v)"

text \<open>
  What the source leaves to the libraries: the order among equal values at each of the
  three sorts, whether a chart call raises, and whether pandas runs with copy-on-write
  (the default from pandas 3; before it \<^verbatim>\<open>head\<close> returns a view that shares its
  values with the series it was taken from).
\<close>

datatype exn =
  FileNotFoundError | PermissionError | ParserError | TypeError | ValueError
  | Other_exception string

datatype chart = Bar "string series" | Pie "string series" | Line "int series"

record library =
  tie_station :: "string \<times> int64 \<Rightarrow> nat"
  tie_category :: "string \<times> int64 \<Rightarrow> nat"
  tie_hotspot :: "(rat \<times> rat) \<times> int64 \<Rightarrow> nat"
  plot :: "chart \<Rightarrow> exn option"
  copy_on_write :: bool

section \<open>What the statements of the Data Analysis page bind\<close>

text \<open>
  The variables the analysis branch binds, with the loaded table it reads, as values.
  The branch is entered only when \<open>data\<close> is not \<^verbatim>\<open>None\<close>, so \<open>data\<close> is a table
  here. This section follows the assignments alone; the run of the page, with its chart
  calls and the objects the variables point to, is \<open>analysis_run\<close> below, and
  \<open>run_binds_values\<close> relates the two.
\<close>

record env =
  data :: table
  station_counts :: "string series"
  category_counts :: "string series"
  top_categories :: "string series"
  others :: int64
  yearly_trend :: "int series"
  station_locations :: "(string \<times> rat \<times> rat) series"
  hotspot_data :: "(rat \<times> rat) series"

text \<open>The state on entry: the table is loaded, no other variable is bound yet.\<close>

definition entry_env :: "table \<Rightarrow> env" where
  "entry_env t =
     \<lparr>data = t, station_counts = [], category_counts = [], top_categories = [],
      others = 0, yearly_trend = [], station_locations = [], hotspot_data = []\<rparr>"

text \<open>Line 101: the sorted station groups, and the statement that keeps their head.\<close>

definition station_totals :: "library \<Rightarrow> env \<Rightarrow> string series" where
  "station_totals L s = sort_values_desc (tie_station L) (groupby_sum station (data s))"

definition set_station_counts :: "library \<Rightarrow> env \<Rightarrow> env" where
  "set_station_counts L s = s\<lparr>station_counts := head 15 (station_totals L s)\<rparr>"

text \<open>Line 114.\<close>

definition set_category_counts :: "library \<Rightarrow> env \<Rightarrow> env" where
  "set_category_counts L s =
     s\<lparr>category_counts := sort_values_desc (tie_category L) (groupby_sum category (data s))\<rparr>"

text \<open>Lines 117 and 118.\<close>

definition set_top_categories :: "env \<Rightarrow> env" where
  "set_top_categories s = s\<lparr>top_categories := head 8 (category_counts s)\<rparr>"

definition set_others :: "env \<Rightarrow> env" where
  "set_others s = s\<lparr>others := series_sum (iloc_from 8 (category_counts s))\<rparr>"

text \<open>
  Lines 120 and 121, as a value: what \<open>top_categories\<close> holds afterwards. That the
  assignment works in place, and what that does to \<open>category_counts\<close>, is part of the
  run (\<open>setitem_at\<close> below).
\<close>

definition add_others :: "env \<Rightarrow> env" where
  "add_others s =
     (if 0 < sint (others s)
      then s\<lparr>top_categories := setitem (top_categories s) ''Others'' (others s)\<rparr>
      else s)"

text \<open>Line 150.\<close>

definition set_yearly_trend :: "env \<Rightarrow> env" where
  "set_yearly_trend s = s\<lparr>yearly_trend := groupby_sum year (data s)\<rparr>"

text \<open>
  Lines 165 to 167. \<^verbatim>\<open>reset_index()\<close> turns the three index levels into columns; the
  entries and their order stay as they are.
\<close>

definition set_station_locations :: "env \<Rightarrow> env" where
  "set_station_locations s =
     s\<lparr>station_locations := groupby_sum station_location (data s)\<rparr>"

text \<open>Lines 190 to 193, and line 195, which binds \<open>hotspot_data\<close> a second time.\<close>

definition set_hotspot_data :: "env \<Rightarrow> env" where
  "set_hotspot_data s = s\<lparr>hotspot_data := groupby_sum location (data s)\<rparr>"

definition sort_hotspot_data :: "library \<Rightarrow> env \<Rightarrow> env" where
  "sort_hotspot_data L s =
     s\<lparr>hotspot_data := head 20 (sort_values_desc (tie_hotspot L) (hotspot_data s))\<rparr>"

text \<open>The assignments of the branch, in the order of the source.\<close>

definition data_analysis :: "library \<Rightarrow> env \<Rightarrow> env" where
  "data_analysis L s =
     sort_hotspot_data L (set_hotspot_data (set_station_locations (set_yearly_trend
       (add_others (set_others (set_top_categories (set_category_counts L
         (set_station_counts L s))))))))"

section \<open>The run of the Data Analysis page\<close>

text \<open>
  What a run puts on the screen, one element per Streamlit call. Headings are given
  without their leading pictograph, and the long static Markdown texts by name. Charts,
  tables and maps carry the view they show; the summary statistics of
  \<^verbatim>\<open>data.describe()\<close> are floating-point and stand for themselves. An exception that
  nothing catches ends the script; Streamlit shows it in place of the rest of the page.
\<close>

datatype static_text = Welcome | Screenshots_intro | About_this_research | Rule | Copyright

datatype frame =
    Rows table
  | Null_counts "(string \<times> nat) list"
  | Describe table
  | Station_frame "(string \<times> rat \<times> rat) series"
  | Hotspot_frame "(rat \<times> rat) series"

datatype element =
    Title string
  | Subheader string
  | Markdown static_text
  | Image string string
  | Write string
  | Write_count string nat
  | Write_names "string list"
  | Dataframe frame
  | Pyplot chart
  | Map_points "(rat \<times> rat) list"
  | Warning string
  | Info string
  | Uncaught exn

text \<open>
  The objects of a run live in a store; an address is a position in it. The loaded
  table is one object. A Series is an index of labels, which pandas never changes in
  place, and a buffer of values, which it can: the variable holds the labels and the
  address of the buffer, and a view (\<^verbatim>\<open>head\<close>) holds fewer labels over the same
  buffer.
\<close>

datatype obj = Table_object table | Values "int64 list"

type_synonym store = "obj list"

record 'k handle =
  labels :: "'k list"
  buffer :: nat

definition table_at :: "store \<Rightarrow> nat \<Rightarrow> table" where
  "table_at h a =
     (if a < length h then (case h ! a of Table_object t \<Rightarrow> t | Values vs \<Rightarrow> []) else [])"

definition values_at :: "store \<Rightarrow> nat \<Rightarrow> int64 list" where
  "values_at h a =
     (if a < length h then (case h ! a of Table_object t \<Rightarrow> [] | Values vs \<Rightarrow> vs) else [])"

text \<open>The entries a handle shows.\<close>

definition deref :: "store \<Rightarrow> 'k handle \<Rightarrow> 'k series" where
  "deref h r = zip (labels r) (values_at h (buffer r))"

text \<open>A call that returns a new Series puts its values into a new buffer.\<close>

definition new_series :: "store \<Rightarrow> 'k series \<Rightarrow> store \<times> 'k handle" where
  "new_series h s = (h @ [Values (map snd s)], \<lparr>labels = map fst s, buffer = length h\<rparr>)"

definition view_head :: "nat \<Rightarrow> 'k handle \<Rightarrow> 'k handle" where
  "view_head n r = r\<lparr>labels := take n (labels r)\<rparr>"

fun position :: "'a \<Rightarrow> 'a list \<Rightarrow> nat" where
  "position k [] = 0"
| "position k (x # xs) = (if x = k then 0 else Suc (position k xs))"

text \<open>
  \<^verbatim>\<open>s[label] = v\<close> on a handle. A label in the index is overwritten where it stands:
  in the buffer itself without copy-on-write, so that every handle on that buffer sees
  the new value, and in a private copy of the handle's values with it. A new label makes
  pandas build a longer index and a longer buffer for this handle.
\<close>

definition setitem_at :: "bool \<Rightarrow> store \<Rightarrow> 'k handle \<Rightarrow> 'k \<Rightarrow> int64 \<Rightarrow> store \<times> 'k handle" where
  "setitem_at cow h r k v =
     (let own = take (length (labels r)) (values_at h (buffer r)) in
      if k \<in> set (labels r)
      then (if cow
            then (h @ [Values (own[position k (labels r) := v])], r\<lparr>buffer := length h\<rparr>)
            else (h[buffer r := Values ((values_at h (buffer r))[position k (labels r) := v])], r))
      else (h @ [Values (own @ [v])], \<lparr>labels = labels r @ [k], buffer = length h\<rparr>))"

text \<open>
  The state of a run: the store, the variables (unbound until their statement has run),
  what is on the screen, and the exception that ended the run, if one did.
\<close>

record run =
  heap :: store
  data_var :: nat
  station_counts_var :: "string handle option"
  category_counts_var :: "string handle option"
  top_categories_var :: "string handle option"
  others_var :: "int64 option"
  yearly_trend_var :: "int handle option"
  station_locations_var :: "(string \<times> rat \<times> rat) handle option"
  hotspot_data_var :: "(rat \<times> rat) handle option"
  screen :: "element list"
  raised :: "exn option"

definition entry_run :: "table \<Rightarrow> run" where
  "entry_run t =
     \<lparr>heap = [Table_object t], data_var = 0, station_counts_var = None,
      category_counts_var = None, top_categories_var = None, others_var = None,
      yearly_trend_var = None, station_locations_var = None, hotspot_data_var = None,
      screen = [], raised = None\<rparr>"

definition emit :: "element list \<Rightarrow> run \<Rightarrow> run" where
  "emit es st = st\<lparr>screen := screen st @ es\<rparr>"

text \<open>
  A chart: \<^verbatim>\<open>plt.subplots\<close>, the plotting call and \<^verbatim>\<open>st.pyplot\<close>. Either the chart
  is shown, or the call raises and the run ends there.
\<close>

definition draw :: "library \<Rightarrow> chart \<Rightarrow> run \<Rightarrow> run" where
  "draw L c st =
     (case plot L c of Some e \<Rightarrow> st\<lparr>raised := Some e\<rparr> | None \<Rightarrow> emit [Pyplot c] st)"

text \<open>Lines 99 to 107.\<close>

definition station_block :: "library \<Rightarrow> run \<Rightarrow> run" where
  "station_block L st =
     (let t = table_at (heap st) (data_var st);
          (h, r) = new_series (heap st)
                     (sort_values_desc (tie_station L) (groupby_sum station t));
          v = view_head 15 r
      in draw L (Bar (deref h v))
           (emit [Subheader ''Crime by Police Station'']
              (st\<lparr>heap := h, station_counts_var := Some v\<rparr>)))"

text \<open>Lines 112 to 143.\<close>

definition category_block :: "library \<Rightarrow> run \<Rightarrow> run" where
  "category_block L st =
     (let t = table_at (heap st) (data_var st);
          (h1, cc) = new_series (heap st)
                       (sort_values_desc (tie_category L) (groupby_sum category t));
          top = view_head 8 cc;
          rest = series_sum (iloc_from 8 (deref h1 cc));
          (h2, top') = (if 0 < sint rest
                        then setitem_at (copy_on_write L) h1 top ''Others'' rest
                        else (h1, top))
      in draw L (Pie (deref h2 top'))
           (emit [Subheader ''Crime by Category (Clear View)'']
              (st\<lparr>heap := h2, category_counts_var := Some cc,
                  top_categories_var := Some top', others_var := Some rest\<rparr>)))"

text \<open>Lines 148 to 157.\<close>

definition year_block :: "library \<Rightarrow> run \<Rightarrow> run" where
  "year_block L st =
     (let t = table_at (heap st) (data_var st);
          (h, r) = new_series (heap st) (groupby_sum year t)
      in draw L (Line (deref h r))
           (emit [Subheader ''Crime Trend Over Years'']
              (st\<lparr>heap := h, yearly_trend_var := Some r\<rparr>)))"

text \<open>
  Lines 162 to 183. The maps rename \<open>location_y\<close> to \<open>lat\<close> and \<open>location_x\<close> to
  \<open>lon\<close>: a point is (latitude, longitude).
\<close>

definition locations_block :: "library \<Rightarrow> run \<Rightarrow> run" where
  "locations_block L st =
     (let t = table_at (heap st) (data_var st);
          (h, r) = new_series (heap st) (groupby_sum station_location t)
      in emit [Subheader ''All Police Stations Map'',
               Dataframe (Station_frame (deref h r)),
               Subheader ''Police Stations Map'',
               Map_points (map (\<lambda>((n, x, y), c). (y, x)) (deref h r))]
           (st\<lparr>heap := h, station_locations_var := Some r\<rparr>))"

text \<open>Lines 188 to 211.\<close>

definition hotspot_block :: "library \<Rightarrow> run \<Rightarrow> run" where
  "hotspot_block L st =
     (let t = table_at (heap st) (data_var st);
          (h1, g) = new_series (heap st) (groupby_sum location t);
          (h2, r) = new_series h1 (sort_values_desc (tie_hotspot L) (deref h1 g));
          v = view_head 20 r
      in emit [Subheader ''Top Crime Hotspots'',
               Dataframe (Hotspot_frame (deref h2 v)),
               Subheader ''Hotspot Map'',
               Map_points (map (\<lambda>((x, y), c). (y, x)) (deref h2 v))]
           (st\<lparr>heap := h2, hotspot_data_var := Some v\<rparr>))"

text \<open>A block runs only if nothing has raised before it.\<close>

definition next_block :: "(run \<Rightarrow> run) \<Rightarrow> run \<Rightarrow> run" where
  "next_block f st = (if raised st = None then f st else st)"

definition analysis_run :: "library \<Rightarrow> run \<Rightarrow> run" where
  "analysis_run L st =
     next_block (hotspot_block L) (next_block (locations_block L) (next_block (year_block L)
       (next_block (category_block L) (next_block (station_block L) st))))"

text \<open>What a variable of a run shows: nothing while it is unbound.\<close>

definition shown :: "store \<Rightarrow> 'k handle option \<Rightarrow> 'k series" where
  "shown h v = (case v of None \<Rightarrow> [] | Some r \<Rightarrow> deref h r)"

section \<open>Loading, and the pages\<close>

text \<open>
  What \<^verbatim>\<open>pd.read_csv("data/crime_data.csv")\<close> does is the file system's doing and is a
  parameter: the table it parsed, or the exception it raised. \<open>load_data\<close> hands either
  on (its cache only saves reading the file again); lines 23 to 26 catch every
  exception and bind \<open>data\<close> to \<^verbatim>\<open>None\<close>.
\<close>

definition load_data :: "exn + table \<Rightarrow> exn + table" where
  "load_data read_csv = read_csv"

definition try_load :: "exn + table \<Rightarrow> table option" where
  "try_load read_csv = (case load_data read_csv of Inl e \<Rightarrow> None | Inr t \<Rightarrow> Some t)"

datatype page = Home | Dataset_Overview | Data_Analysis | Screenshots | About_Research

definition columns :: "string list" where
  "columns = [''station'', ''category'', ''location_x'', ''location_y'', ''year'', ''crime_count'']"

text \<open>\<^verbatim>\<open>data.isnull().sum()\<close>: for each column, the number of rows whose cell is missing.\<close>

definition null_counts :: "table \<Rightarrow> (string \<times> nat) list" where
  "null_counts t =
     [(''station'', length (filter (\<lambda>r. station r = None) t)),
      (''category'', length (filter (\<lambda>r. category r = None) t)),
      (''location_x'', length (filter (\<lambda>r. location_x r = None) t)),
      (''location_y'', length (filter (\<lambda>r. location_y r = None) t)),
      (''year'', length (filter (\<lambda>r. year r = None) t)),
      (''crime_count'', 0)]"

definition home_page :: "element list" where
  "home_page =
     [Title ''Crime Data Analysis Dashboard'',
      Subheader ''Exploratory Analysis of Crime Patterns in Mpumalanga'',
      Markdown Welcome,
      Image ''assets/cover.jpeg'' ''Crime Analysis Overview'']"

definition dataset_overview :: "table option \<Rightarrow> element list" where
  "dataset_overview d =
     Title ''Dataset Overview'' #
     (case d of
        Some t \<Rightarrow>
          [Write ''### Sample Records'', Dataframe (Rows (head 50 t)),
           Write ''### Dataset Shape'',
           Write_count ''Rows'' (length t), Write_count ''Columns'' (length columns),
           Write ''### Column Names'', Write_names columns,
           Write ''### Missing Values'', Dataframe (Null_counts (null_counts t)),
           Write ''### Basic Statistics'', Dataframe (Describe t)]
      | None \<Rightarrow>
          [Warning ''Dataset not found. Please add crime_data.csv in the data folder.''])"

text \<open>The analysis page: what the run has shown, and the exception that ended it.\<close>

definition analysis_page :: "library \<Rightarrow> table option \<Rightarrow> element list \<times> exn option" where
  "analysis_page L d =
     (case d of
        Some t \<Rightarrow>
          (let st = analysis_run L (entry_run t)
           in (Title ''Data Analysis & Trends'' # screen st, raised st))
      | None \<Rightarrow>
          ([Title ''Data Analysis & Trends'', Warning ''No data available for analysis.''],
           None))"

text \<open>
  The screenshots folder is a parameter too: \<^verbatim>\<open>None\<close> when it does not exist, else
  the names \<^verbatim>\<open>os.listdir\<close> gives.
\<close>

definition screenshots_page :: "string list option \<Rightarrow> element list" where
  "screenshots_page folder =
     [Title ''Research Screenshots'', Markdown Screenshots_intro] @
     (case folder of
        Some images \<Rightarrow>
          (if length images > 0
           then map (\<lambda>img. Image (''screenshots/'' @ img) img) images
           else [Info ''No screenshots found in the folder.''])
      | None \<Rightarrow> [Warning ''Please create a 'screenshots' folder and add your images.''])"

definition about_page :: "element list" where
  "about_page = [Title ''About This Research'', Markdown About_this_research]"

definition footer :: "element list" where
  "footer = [Markdown Rule, Markdown Copyright]"

text \<open>
  One run of the script for the page chosen in the sidebar. The footer is reached only
  when the page has not raised.
\<close>

definition app :: "library \<Rightarrow> exn + table \<Rightarrow> string list option \<Rightarrow> page \<Rightarrow> element list" where
  "app L read_csv folder p =
     (let d = try_load read_csv;
          (body, r) =
            (case p of
               Home \<Rightarrow> (home_page, None)
             | Dataset_Overview \<Rightarrow> (dataset_overview d, None)
             | Data_Analysis \<Rightarrow> analysis_page L d
             | Screenshots \<Rightarrow> (screenshots_page folder, None)
             | About_Research \<Rightarrow> (about_page, None))
      in body @ (case r of None \<Rightarrow> footer | Some e \<Rightarrow> [Uncaught e]))"

section \<open>The views as the specification words them\<close>

text \<open>
  The sum of \<open>crime_count\<close> over all rows of the table, as the column's own
  \<^verbatim>\<open>.sum()\<close> gives it.
\<close>

definition grand_total :: "table \<Rightarrow> int64" where
  "grand_total t = sum_list (map crime_count t)"

text \<open>The rows that have a key, and the keys that occur.\<close>

definition with_key :: "(row \<Rightarrow> 'k option) \<Rightarrow> table \<Rightarrow> table" where
  "with_key key t = filter (\<lambda>r. key r \<noteq> None) t"


text \<open>The sum of \<open>crime_count\<close> over the rows of one group, in the column's arithmetic.\<close>

definition group_total :: "(row \<Rightarrow> 'k option) \<Rightarrow> table \<Rightarrow> 'k \<Rightarrow> int64" where
  "group_total key t k = sum_list (map crime_count (filter (\<lambda>r. key r = Some k) t))"


definition in_int64 :: "int \<Rightarrow> bool" where
  "in_int64 n \<longleftrightarrow> - (2 ^ 63) \<le> n \<and> n < 2 ^ 63"


text \<open>A series whose values, read as signed numbers, never increase from one entry to the next.\<close>

definition descending :: "'k series \<Rightarrow> bool" where
  "descending s = sorted_wrt (\<lambda>a b. sint (snd b) \<le> sint (snd a)) s"

section \<open>Example tables\<close>

text \<open>The two rows of the specification's worked example.\<close>

definition spec_example :: table where
  "spec_example =
     [\<lparr>station = Some ''A'', category = Some ''Theft'', location_x = Some 1,
       location_y = Some 2, year = Some 2020, crime_count = 5\<rparr>,
      \<lparr>station = Some ''A'', category = Some ''Theft'', location_x = Some 1,
       location_y = Some 2, year = Some 2021, crime_count = 3\<rparr>]"

text \<open>
  Nine categories, each in one row; one of them is itself called \<^verbatim>\<open>Others\<close> and
  is seventh by count.
\<close>

definition clash_row :: "string \<Rightarrow> int64 \<Rightarrow> row" where
  "clash_row c n =
     \<lparr>station = Some ''A'', category = Some c, location_x = Some 1, location_y = Some 2,
      year = Some 2020, crime_count = n\<rparr>"

definition clash_table :: table where
  "clash_table =
     [clash_row ''Theft'' 90, clash_row ''Assault'' 80, clash_row ''Burglary'' 70,
      clash_row ''Robbery'' 60, clash_row ''Fraud'' 50, clash_row ''Arson'' 40,
      clash_row ''Others'' 30, clash_row ''Vandalism'' 20, clash_row ''Stalking'' 10]"

text \<open>A library for the examples: ties by length of the label, no chart raises.\<close>

definition quiet_library :: "bool \<Rightarrow> library" where
  "quiet_library cow =
     \<lparr>tie_station = (\<lambda>e. length (fst e)), tie_category = (\<lambda>e. length (fst e)),
      tie_hotspot = (\<lambda>e. 0), plot = (\<lambda>c. None), copy_on_write = cow\<rparr>"


text \<open>Two rows, the second with a blank station cell.\<close>

definition blank_station_example :: table where
  "blank_station_example =
     [\<lparr>station = Some ''A'', category = Some ''Theft'', location_x = Some 1,
       location_y = Some 2, year = Some 2020, crime_count = 3\<rparr>,
      \<lparr>station = None, category = Some ''Theft'', location_x = Some 1,
       location_y = Some 2, year = Some 2020, crime_count = 5\<rparr>]"


text \<open>
  The ordinary case: no count is negative and the counts of the table add up to a
  number an int64 holds.
\<close>

definition ordinary :: "table \<Rightarrow> bool" where
  "ordinary t \<longleftrightarrow>
     (\<forall>r\<in>set t. 0 \<le> sint (crime_count r)) \<and>
     in_int64 (sum_list (map (\<lambda>r. sint (crime_count r)) t))"

text \<open>
  A library in which the bar chart of a series with no entries raises \<^verbatim>\<open>TypeError\<close>
  (pandas: no numeric data to plot) and every other chart is drawn.
\<close>

definition empty_bar_raises :: library where
  "empty_bar_raises =
     (quiet_library True)\<lparr>plot := (\<lambda>c. if c = Bar [] then Some TypeError else None)\<rparr>"

section \<open>Auxiliary notions for the proofs\<close>

text \<open>The values of a series and the counts of a table, added up as unbounded integers.\<close>

definition int_sum :: "'k series \<Rightarrow> int" where
  "int_sum s = sum_list (map (\<lambda>e. sint (snd e)) s)"

definition rows_sum :: "table \<Rightarrow> int" where
  "rows_sum t = sum_list (map (\<lambda>r. sint (crime_count r)) t)"

text \<open>A store that keeps every object of an earlier one as it was.\<close>

definition extends :: "store \<Rightarrow> store \<Rightarrow> bool" where
  "extends h h' \<longleftrightarrow> length h \<le> length h' \<and> take (length h) h' = h"

text \<open>
  The invariant of a run on the table \<open>t\<close>: the table is where \<open>data\<close> points, and
  every variable that is bound shows the value its statement gives it. Without
  copy-on-write \<open>category_counts\<close> is excepted once line 121 has overwritten an entry
  through the view.
\<close>

definition links :: "library \<Rightarrow> table \<Rightarrow> run \<Rightarrow> bool" where
  "links L t st \<longleftrightarrow>
     data_var st < length (heap st) \<and> table_at (heap st) (data_var st) = t
     \<and> (\<forall>r. station_counts_var st = Some r \<longrightarrow>
          buffer r < length (heap st)
          \<and> deref (heap st) r = station_counts (data_analysis L (entry_env t)))
     \<and> (\<forall>r. category_counts_var st = Some r \<longrightarrow>
          buffer r < length (heap st)
          \<and> (copy_on_write L
              \<or> ''Others'' \<notin> fst ` set (head 8 (category_counts (data_analysis L (entry_env t))))
              \<or> \<not> 0 < sint (others (data_analysis L (entry_env t)))
              \<longrightarrow> deref (heap st) r = category_counts (data_analysis L (entry_env t))))
     \<and> (\<forall>r. top_categories_var st = Some r \<longrightarrow>
          buffer r < length (heap st)
          \<and> deref (heap st) r = top_categories (data_analysis L (entry_env t)))
     \<and> (\<forall>v. others_var st = Some v \<longrightarrow> v = others (data_analysis L (entry_env t)))
     \<and> (\<forall>r. yearly_trend_var st = Some r \<longrightarrow>
          buffer r < length (heap st)
          \<and> deref (heap st) r = yearly_trend (data_analysis L (entry_env t)))
     \<and> (\<forall>r. station_locations_var st = Some r \<longrightarrow>
          buffer r < length (heap st)
          \<and> deref (heap st) r = station_locations (data_analysis L (entry_env t)))
     \<and> (\<forall>r. hotspot_data_var st = Some r \<longrightarrow>
          buffer r < length (heap st)
          \<and> deref (heap st) r = hotspot_data (data_analysis L (entry_env t)))"

section \<open>Grouping and sorting\<close>




lemma add_to_group_sum: "series_sum (add_to_group k c g) = series_sum g + c"
  by (induction g) (auto simp: series_sum_def)


lemma groupby_sum_snoc:
  "groupby_sum key (t @ [r]) =
     (case key r of None \<Rightarrow> groupby_sum key t
      | Some k \<Rightarrow> add_to_group k (crime_count r) (groupby_sum key t))"
  by (simp add: groupby_sum_def split: option.split)

lemma groupby_sum_Nil: "groupby_sum key [] = []"
  by (simp add: groupby_sum_def)



lemma grand_total_snoc: "grand_total (t @ [r]) = grand_total t + crime_count r"
  by (simp add: grand_total_def)

lemma groupby_sum_total: "series_sum (groupby_sum key t) = grand_total (with_key key t)"
proof (induction t rule: rev_induct)
  case Nil
  then show ?case
    by (simp add: groupby_sum_Nil series_sum_def grand_total_def with_key_def)
next
  case (snoc r t)
  show ?case
  proof (cases "key r")
    case None
    then show ?thesis using snoc by (simp add: groupby_sum_snoc with_key_def)
  next
    case (Some k)
    then have "with_key key (t @ [r]) = with_key key t @ [r]"
      by (simp add: with_key_def)
    with Some snoc show ?thesis
      by (simp add: groupby_sum_snoc add_to_group_sum grand_total_snoc)
  qed
qed











lemma sort_values_desc_mset: "mset (sort_values_desc tie s) = mset s"
  by (simp add: sort_values_desc_def)

lemma sort_values_desc_set: "set (sort_values_desc tie s) = set s"
  by (simp add: sort_values_desc_def)

lemma sort_values_desc_descending: "descending (sort_values_desc tie s)"
proof -
  let ?f = "\<lambda>e. (- sint (snd e), tie e)"
  have "sorted (map ?f (sort_key ?f s))"
    by (rule sorted_sort_key)
  then have "sorted_wrt (\<lambda>x y. ?f x \<le> ?f y) (sort_key ?f s)"
    by (simp add: sorted_map)
  then have "sorted_wrt (\<lambda>a b. sint (snd b) \<le> sint (snd a)) (sort_key ?f s)"
    by (rule sorted_wrt_mono_rel [rotated]) (auto simp: less_eq_prod_def)
  then show ?thesis
    by (simp add: descending_def sort_values_desc_def)
qed

lemma series_sum_mset: "mset a = mset b \<Longrightarrow> series_sum a = series_sum b"
proof -
  assume "mset a = mset b"
  then have "mset (map snd a) = mset (map snd b)" by (metis mset_map)
  then show ?thesis unfolding series_sum_def by (metis sum_mset_sum_list)
qed

lemma sort_values_desc_sum: "series_sum (sort_values_desc tie s) = series_sum s"
  by (rule series_sum_mset) (rule sort_values_desc_mset)


lemma descending_take: "descending s \<Longrightarrow> descending (take n s)"
  by (simp add: descending_def sorted_wrt_take)

lemma series_sum_take_drop: "series_sum (take n s) + series_sum (drop n s) = series_sum s"
proof -
  have "series_sum (take n s @ drop n s) = series_sum s" by simp
  then show ?thesis unfolding series_sum_def by (simp del: append_take_drop_id)
qed

lemma position_less: "k \<in> set ks \<Longrightarrow> position k ks < length ks"
  by (induction ks) auto

lemma position_nth: "k \<in> set ks \<Longrightarrow> ks ! position k ks = k"
  by (induction ks) auto

lemma position_of_nth: "distinct ks \<Longrightarrow> i < length ks \<Longrightarrow> position (ks ! i) ks = i"
proof (induction ks arbitrary: i)
  case Nil
  then show ?case by simp
next
  case (Cons x ks)
  then show ?case by (cases i) auto
qed

lemma filter_is_single: "distinct l \<Longrightarrow> k \<in> set l \<Longrightarrow> filter (\<lambda>x. k = x) l = [k]"
proof (induction l)
  case Nil
  then show ?case by simp
next
  case (Cons a l)
  show ?case
  proof (cases "k = a")
    case True
    with Cons.prems have "filter (\<lambda>x. k = x) l = []"
      by (auto simp: filter_empty_conv)
    with True show ?thesis by simp
  next
    case False
    with Cons show ?thesis by simp
  qed
qed

lemma sort_values_desc_any_order:
  assumes perm: "mset r = mset s" and desc: "descending r" and dist: "distinct r"
  shows "sort_values_desc (\<lambda>e. position e r) s = r"
proof -
  define f where "f = (\<lambda>e. (- sint (snd e), position e r))"
  have pos: "position x r = position y r" if "f x = f y" for x y
    using that by (simp add: f_def)
  have inj: "x = y" if "x \<in> set r" "y \<in> set r" "f x = f y" for x y
  proof -
    have "r ! position x r = r ! position y r" using pos [OF that(3)] by simp
    with that(1,2) show ?thesis by (simp add: position_nth)
  qed
  have ds: "distinct s"
    using perm dist by (metis mset_eq_imp_distinct_iff)
  have sets: "set s = set r"
    using perm by (metis mset_eq_setD)
  have single: "filter (\<lambda>x. f k = f x) l = [k]"
    if "k \<in> set r" "set l = set r" "distinct l" for k l
  proof -
    have "filter (\<lambda>x. f k = f x) l = filter (\<lambda>x. k = x) l"
    proof (rule filter_cong [OF refl])
      fix x assume "x \<in> set l"
      then have "x \<in> set r" using that(2) by simp
      then show "(f k = f x) = (k = x)" using inj [OF that(1)] by blast
    qed
    also have "\<dots> = [k]"
      using that by (simp add: filter_is_single)
    finally show ?thesis .
  qed
  have "sort_key f s = r"
  proof (rule properties_for_sort_key)
    show "mset r = mset s" by (rule perm)
    show "filter (\<lambda>x. f k = f x) r = filter (\<lambda>x. f k = f x) s" if "k \<in> set r" for k
      using single [OF that refl dist] single [OF that sets ds] by simp
    show "sorted (map f r)"
    proof -
      have "f (r ! i) \<le> f (r ! j)" if ij: "i < j" "j < length r" for i j
      proof -
        have "sint (snd (r ! j)) \<le> sint (snd (r ! i))"
          using desc ij unfolding descending_def sorted_wrt_iff_nth_less by blast
        moreover have "position (r ! i) r = i" "position (r ! j) r = j"
          using dist ij by (simp_all add: position_of_nth)
        ultimately show ?thesis
          using ij(1) by (simp add: less_eq_prod_def f_def)
      qed
      then have "sorted_wrt (\<lambda>x y. f x \<le> f y) r"
        unfolding sorted_wrt_iff_nth_less by blast
      then show ?thesis by (simp add: sorted_map)
    qed
  qed
  then show ?thesis by (simp add: sort_values_desc_def f_def)
qed

lemma sum_list_word_of_int:
  "(sum_list ws :: int64) = word_of_int (sum_list (map sint ws))"
  by (induction ws) simp_all

lemma sint_sum_list_exact:
  assumes "in_int64 (sum_list (map sint ws))"
  shows "sint (sum_list ws :: int64) = sum_list (map sint ws)"
proof -
  let ?n = "sum_list (map sint ws)"
  have "sint (word_of_int ?n :: int64) = signed_take_bit 63 ?n"
    by (simp add: sint_sbintrunc')
  also have "\<dots> = ?n"
    using assms by (simp add: in_int64_def signed_take_bit_int_eq_self)
  finally show ?thesis by (simp add: sum_list_word_of_int [symmetric])
qed


section \<open>The views of the page\<close>

lemmas statement_defs =
  data_analysis_def sort_hotspot_data_def set_hotspot_data_def set_station_locations_def
  set_yearly_trend_def add_others_def set_others_def set_top_categories_def
  set_category_counts_def set_station_counts_def station_totals_def

lemma data_analysis_data: "data (data_analysis L s) = data s"
  by (simp add: statement_defs)

lemma data_analysis_station_counts:
  "station_counts (data_analysis L s) = head 15 (station_totals L s)"
  by (simp add: statement_defs)

lemma data_analysis_category_counts:
  "category_counts (data_analysis L s) =
     sort_values_desc (tie_category L) (groupby_sum category (data s))"
  by (simp add: statement_defs)

lemma data_analysis_others:
  "others (data_analysis L s) = series_sum (iloc_from 8 (category_counts (data_analysis L s)))"
  by (simp add: statement_defs)

lemma data_analysis_top_categories:
  "top_categories (data_analysis L s) =
     (if 0 < sint (others (data_analysis L s))
      then setitem (head 8 (category_counts (data_analysis L s))) ''Others''
             (others (data_analysis L s))
      else head 8 (category_counts (data_analysis L s)))"
  by (simp add: statement_defs)

lemma data_analysis_yearly_trend:
  "yearly_trend (data_analysis L s) = groupby_sum year (data s)"
  by (simp add: statement_defs)

lemma data_analysis_station_locations:
  "station_locations (data_analysis L s) = groupby_sum station_location (data s)"
  by (simp add: statement_defs)

lemma data_analysis_hotspot_data:
  "hotspot_data (data_analysis L s) =
     head 20 (sort_values_desc (tie_hotspot L) (groupby_sum location (data s)))"
  by (simp add: statement_defs)




text \<open>Two entries with equal values come out in either order, as \<open>tie\<close> ranks them.\<close>

lemma tie_order_is_open:
  "sort_values_desc (\<lambda>e. if fst e = ''S0'' then 0 else 1) [(''S0'', 5), (''S1'', 5)] =
     [(''S0'', 5), (''S1'', 5)]
   \<and> sort_values_desc (\<lambda>e. if fst e = ''S0'' then 1 else 0) [(''S0'', 5), (''S1'', 5)] =
     [(''S1'', 5), (''S0'', 5)]"
  by (simp add: sort_values_desc_def)





text \<open>
  Claim C6. \<open>station_counts\<close> has at most 15 entries and \<open>hotspot_data\<close> at most 20,
  and in both the values never increase from one entry to the next.
\<close>

theorem top_views_bounded:
  "length (station_counts (data_analysis L s)) \<le> 15
   \<and> length (hotspot_data (data_analysis L s)) \<le> 20
   \<and> descending (station_counts (data_analysis L s))
   \<and> descending (hotspot_data (data_analysis L s))"
  by (simp add: data_analysis_station_counts data_analysis_hotspot_data station_totals_def
      head_def descending_take sort_values_desc_descending)

theorem top_views_bounded_witness:
  "length (station_counts (data_analysis (quiet_library True) (entry_env spec_example))) \<le> 15
   \<and> length (hotspot_data (data_analysis (quiet_library True) (entry_env spec_example))) \<le> 20
   \<and> descending (station_counts (data_analysis (quiet_library True) (entry_env spec_example)))
   \<and> descending (hotspot_data (data_analysis (quiet_library True) (entry_env spec_example)))"
  using top_views_bounded [of "quiet_library True" "entry_env spec_example"] by simp

text \<open>
  With one blank station cell the station groups add up to 3 and the table to 8.
\<close>

theorem views_keep_total_counterexample:
  "data (entry_env blank_station_example) \<noteq> []
   \<and> series_sum (station_totals (quiet_library True) (entry_env blank_station_example)) = 3
   \<and> grand_total blank_station_example = 8
   \<and> series_sum (station_totals (quiet_library True) (entry_env blank_station_example)) \<noteq>
       grand_total blank_station_example"
  by (simp add: station_totals_def groupby_sum_def sort_values_desc_def series_sum_def
      grand_total_def entry_env_def blank_station_example_def)

text \<open>
  Claim C5, amended. For a table with at least one row, the values of each of the five
  groupings, taken when it is bound and before any \<^verbatim>\<open>head\<close>, add up (in the column's
  64-bit arithmetic) to the sum of \<open>crime_count\<close> over the rows that have the
  grouping's key cells, and so to the sum over all rows when no row lacks such a cell.
  The groupings are the sorted station groups of line 101, \<open>category_counts\<close> as line
  114 binds it, \<open>yearly_trend\<close>, \<open>station_locations\<close>, and \<open>hotspot_data\<close> as
  lines 190 to 193 bind it.
\<close>

theorem views_keep_total:
  assumes "data s \<noteq> []"
  shows "series_sum (station_totals L s) = grand_total (with_key station (data s))
    \<and> series_sum (category_counts (set_category_counts L s)) =
        grand_total (with_key category (data s))
    \<and> series_sum (yearly_trend (set_yearly_trend s)) = grand_total (with_key year (data s))
    \<and> series_sum (station_locations (set_station_locations s)) =
        grand_total (with_key station_location (data s))
    \<and> series_sum (hotspot_data (set_hotspot_data s)) = grand_total (with_key location (data s))
    \<and> ((\<forall>r\<in>set (data s). station r \<noteq> None) \<longrightarrow>
         series_sum (station_totals L s) = grand_total (data s))
    \<and> ((\<forall>r\<in>set (data s). category r \<noteq> None) \<longrightarrow>
         series_sum (category_counts (set_category_counts L s)) = grand_total (data s))
    \<and> ((\<forall>r\<in>set (data s). year r \<noteq> None) \<longrightarrow>
         series_sum (yearly_trend (set_yearly_trend s)) = grand_total (data s))
    \<and> ((\<forall>r\<in>set (data s). station_location r \<noteq> None) \<longrightarrow>
         series_sum (station_locations (set_station_locations s)) = grand_total (data s))
    \<and> ((\<forall>r\<in>set (data s). location r \<noteq> None) \<longrightarrow>
         series_sum (hotspot_data (set_hotspot_data s)) = grand_total (data s))"
proof -
  have full: "with_key key (data s) = data s" if "\<forall>r\<in>set (data s). key r \<noteq> None"
    for key :: "row \<Rightarrow> 'k option"
    using that by (simp add: with_key_def)
  have a: "series_sum (station_totals L s) = grand_total (with_key station (data s))"
    by (simp add: station_totals_def sort_values_desc_sum groupby_sum_total)
  have b: "series_sum (category_counts (set_category_counts L s)) =
        grand_total (with_key category (data s))"
    by (simp add: set_category_counts_def sort_values_desc_sum groupby_sum_total)
  have c: "series_sum (yearly_trend (set_yearly_trend s)) = grand_total (with_key year (data s))"
    by (simp add: set_yearly_trend_def groupby_sum_total)
  have d: "series_sum (station_locations (set_station_locations s)) =
        grand_total (with_key station_location (data s))"
    by (simp add: set_station_locations_def groupby_sum_total)
  have e: "series_sum (hotspot_data (set_hotspot_data s)) =
        grand_total (with_key location (data s))"
    by (simp add: set_hotspot_data_def groupby_sum_total)
  show ?thesis
    unfolding a b c d e using full [of station] full [of category] full [of year]
      full [of station_location] full [of location]
    by simp
qed

theorem views_keep_total_witness:
  "data (entry_env spec_example) \<noteq> []
   \<and> with_key station spec_example = spec_example
   \<and> with_key category spec_example = spec_example
   \<and> with_key year spec_example = spec_example
   \<and> with_key station_location spec_example = spec_example
   \<and> with_key location spec_example = spec_example
   \<and> grand_total spec_example = 8
   \<and> series_sum (station_totals (quiet_library True) (entry_env spec_example)) = 8
   \<and> series_sum (category_counts
        (set_category_counts (quiet_library True) (entry_env spec_example))) = 8
   \<and> series_sum (yearly_trend (set_yearly_trend (entry_env spec_example))) = 8
   \<and> series_sum (station_locations (set_station_locations (entry_env spec_example))) = 8
   \<and> series_sum (hotspot_data (set_hotspot_data (entry_env spec_example))) = 8"
proof -
  have ne: "data (entry_env spec_example) \<noteq> []"
    by (simp add: entry_env_def spec_example_def)
  have d: "data (entry_env spec_example) = spec_example"
    by (simp add: entry_env_def)
  have keys: "(\<forall>r\<in>set spec_example. station r \<noteq> None)
    \<and> (\<forall>r\<in>set spec_example. category r \<noteq> None)
    \<and> (\<forall>r\<in>set spec_example. year r \<noteq> None)
    \<and> (\<forall>r\<in>set spec_example. station_location r \<noteq> None)
    \<and> (\<forall>r\<in>set spec_example. location r \<noteq> None)"
    by (simp add: spec_example_def station_location_def location_def)
  have gt: "grand_total spec_example = 8"
    by (simp add: grand_total_def spec_example_def)
  have "series_sum (station_totals (quiet_library True) (entry_env spec_example)) =
      grand_total spec_example
    \<and> series_sum (category_counts
        (set_category_counts (quiet_library True) (entry_env spec_example))) =
      grand_total spec_example
    \<and> series_sum (yearly_trend (set_yearly_trend (entry_env spec_example))) =
      grand_total spec_example
    \<and> series_sum (station_locations (set_station_locations (entry_env spec_example))) =
      grand_total spec_example
    \<and> series_sum (hotspot_data (set_hotspot_data (entry_env spec_example))) =
      grand_total spec_example"
    using views_keep_total [OF ne, of "quiet_library True"] keys
    by (simp add: d with_key_def)
  moreover have "with_key station spec_example = spec_example
    \<and> with_key category spec_example = spec_example
    \<and> with_key year spec_example = spec_example
    \<and> with_key station_location spec_example = spec_example
    \<and> with_key location spec_example = spec_example"
    using keys by (simp add: with_key_def)
  ultimately show ?thesis
    using ne by (simp add: gt)
qed

section \<open>The category view\<close>

lemma setitem_absent: "k \<notin> fst ` set s \<Longrightarrow> setitem s k v = s @ [(k, v)]"
  by (induction s) auto







lemma category_counts_sum:
  "series_sum (category_counts (data_analysis L s)) = grand_total (with_key category (data s))"
  by (simp add: data_analysis_category_counts sort_values_desc_sum groupby_sum_total)



lemma sint_add_exact:
  fixes a b :: int64
  assumes "0 \<le> sint a" "0 \<le> sint b" "sint a + sint b < 2 ^ 63"
  shows "sint (a + b) = sint a + sint b"
  using sint_sum_list_exact [of "[a, b]"] assms by (simp add: in_int64_def)

lemma int_sum_nonneg: "\<forall>e\<in>set s. 0 \<le> sint (snd e) \<Longrightarrow> 0 \<le> int_sum s"
  unfolding int_sum_def by (intro sum_list_nonneg) auto

lemma add_to_group_exact:
  assumes "\<forall>e\<in>set g. 0 \<le> sint (snd e)" "0 \<le> sint c" "int_sum g + sint c < 2 ^ 63"
  shows "(\<forall>e\<in>set (add_to_group k c g). 0 \<le> sint (snd e))
    \<and> int_sum (add_to_group k c g) = int_sum g + sint c"
  using assms
proof (induction g)
  case Nil
  then show ?case by (simp add: int_sum_def)
next
  case (Cons e g)
  obtain a v where e: "e = (a, v)" by (cases e)
  have v: "0 \<le> sint v" and g: "\<forall>e\<in>set g. 0 \<le> sint (snd e)"
    using Cons.prems(1) by (simp_all add: e)
  have rest: "0 \<le> int_sum g" using g by (rule int_sum_nonneg)
  have bound: "sint v + int_sum g + sint c < 2 ^ 63"
    using Cons.prems(3) by (simp add: e int_sum_def)
  show ?case
  proof (cases "k = a")
    case True
    have "sint (v + c) = sint v + sint c"
      using v Cons.prems(2) bound rest by (intro sint_add_exact) auto
    with True v g Cons.prems(2) show ?thesis by (simp add: e int_sum_def)
  next
    case False
    show ?thesis
    proof (cases "k < a")
      case True
      with False v g Cons.prems(2) show ?thesis by (simp add: e int_sum_def)
    next
      case ge: False
      have "int_sum g + sint c < 2 ^ 63" using bound v by simp
      from Cons.IH [OF g Cons.prems(2) this] False ge v show ?thesis
        by (simp add: e int_sum_def)
    qed
  qed
qed

lemma rows_sum_nonneg: "\<forall>r\<in>set t. 0 \<le> sint (crime_count r) \<Longrightarrow> 0 \<le> rows_sum t"
  unfolding rows_sum_def by (intro sum_list_nonneg) auto

lemma groupby_sum_exact:
  assumes "\<forall>r\<in>set t. 0 \<le> sint (crime_count r)" "rows_sum t < 2 ^ 63"
  shows "(\<forall>e\<in>set (groupby_sum key t). 0 \<le> sint (snd e))
    \<and> int_sum (groupby_sum key t) \<le> rows_sum t"
  using assms
proof (induction t rule: rev_induct)
  case Nil
  then show ?case by (simp add: groupby_sum_Nil int_sum_def rows_sum_def)
next
  case (snoc r t)
  have nn: "\<forall>r\<in>set t. 0 \<le> sint (crime_count r)" and c: "0 \<le> sint (crime_count r)"
    using snoc.prems(1) by simp_all
  have split: "rows_sum (t @ [r]) = rows_sum t + sint (crime_count r)"
    by (simp add: rows_sum_def)
  with snoc.prems(2) c have small: "rows_sum t < 2 ^ 63" by simp
  note IH = snoc.IH [OF nn small]
  show ?case
  proof (cases "key r")
    case None
    with IH c show ?thesis by (simp add: groupby_sum_snoc split)
  next
    case (Some k)
    have "int_sum (groupby_sum key t) + sint (crime_count r) < 2 ^ 63"
      using IH snoc.prems(2) by (simp add: split)
    from add_to_group_exact [OF conjunct1 [OF IH] c this, of k] IH Some
    show ?thesis by (simp add: groupby_sum_snoc split)
  qed
qed

lemma int_sum_mset: "mset a = mset b \<Longrightarrow> int_sum a = int_sum b"
proof -
  assume "mset a = mset b"
  then have "mset (map (\<lambda>e. sint (snd e)) a) = mset (map (\<lambda>e. sint (snd e)) b)"
    by (metis mset_map)
  then show ?thesis unfolding int_sum_def by (metis sum_mset_sum_list)
qed

lemma int_sum_take_drop: "int_sum (take n s) + int_sum (drop n s) = int_sum s"
proof -
  have "int_sum (take n s @ drop n s) = int_sum s" by simp
  then show ?thesis unfolding int_sum_def by (simp del: append_take_drop_id)
qed

lemma series_sum_exact:
  assumes "\<forall>e\<in>set s. 0 \<le> sint (snd e)" "int_sum s < 2 ^ 63"
  shows "sint (series_sum s) = int_sum s"
proof -
  have "0 \<le> int_sum s" using assms(1) by (rule int_sum_nonneg)
  with assms(2) have "in_int64 (sum_list (map sint (map snd s)))"
    by (simp add: in_int64_def int_sum_def comp_def)
  then have "sint (sum_list (map snd s)) = sum_list (map sint (map snd s))"
    by (rule sint_sum_list_exact)
  then show ?thesis by (simp add: series_sum_def int_sum_def comp_def)
qed


text \<open>In the ordinary case the excluded rest of the category series adds up without wrapping.\<close>

lemma ordinary_rest:
  assumes "ordinary (data s)"
  shows "(\<forall>e\<in>set (category_counts (data_analysis L s)). 0 \<le> sint (snd e))
    \<and> sint (series_sum (drop 8 (category_counts (data_analysis L s)))) =
        int_sum (drop 8 (category_counts (data_analysis L s)))"
proof -
  let ?g = "groupby_sum category (data s)"
  let ?cc = "category_counts (data_analysis L s)"
  have nn: "\<forall>r\<in>set (data s). 0 \<le> sint (crime_count r)"
    and small: "rows_sum (data s) < 2 ^ 63"
    using assms by (simp_all add: ordinary_def in_int64_def rows_sum_def)
  note G = groupby_sum_exact [OF nn small, of category]
  have m: "mset ?cc = mset ?g"
    by (simp add: data_analysis_category_counts sort_values_desc_mset)
  have set: "set ?cc = set ?g"
    by (simp add: data_analysis_category_counts sort_values_desc_set)
  have pos: "\<forall>e\<in>set ?cc. 0 \<le> sint (snd e)"
    using G set by simp
  have total: "int_sum ?cc < 2 ^ 63"
    using int_sum_mset [OF m] G small by simp
  have dpos: "\<forall>e\<in>set (drop 8 ?cc). 0 \<le> sint (snd e)"
    using pos by (meson in_set_dropD)
  have "0 \<le> int_sum (take 8 ?cc)"
    using pos by (intro int_sum_nonneg) (meson in_set_takeD)
  with int_sum_take_drop [of 8 ?cc] total have "int_sum (drop 8 ?cc) < 2 ^ 63" by simp
  with dpos have "sint (series_sum (drop 8 ?cc)) = int_sum (drop 8 ?cc)"
    by (rule series_sum_exact)
  with pos show ?thesis by simp
qed

lemma clash_category_counts:
  "category_counts (data_analysis L (entry_env clash_table)) =
     [(''Theft'', 90), (''Assault'', 80), (''Burglary'', 70), (''Robbery'', 60),
      (''Fraud'', 50), (''Arson'', 40), (''Others'', 30), (''Vandalism'', 20),
      (''Stalking'', 10)]"
  by (simp add: data_analysis_category_counts entry_env_def clash_table_def clash_row_def
      groupby_sum_def sort_values_desc_def)


lemma clash_totals:
  "grand_total clash_table = 450 \<and> group_total category clash_table ''Others'' = 30"
  by (simp add: grand_total_def group_total_def clash_table_def clash_row_def)




text \<open>
  Claim C1, at the nine-category table: more than eight distinct categories, yet the
  view has eight entries, the entry \<^verbatim>\<open>Others\<close> holds 10 in place of that category's
  30, and the values sum to 420 where the table's total is 450, whatever the order of
  ties.
\<close>

theorem others_clash_breaks_total:
  "length (remdups (map category clash_table)) = 9
   \<and> top_categories (data_analysis L (entry_env clash_table)) =
       [(''Theft'', 90), (''Assault'', 80), (''Burglary'', 70), (''Robbery'', 60),
        (''Fraud'', 50), (''Arson'', 40), (''Others'', 10), (''Vandalism'', 20)]
   \<and> series_sum (top_categories (data_analysis L (entry_env clash_table))) = 420
   \<and> grand_total clash_table = 450"
  by (simp add: data_analysis_top_categories data_analysis_others clash_category_counts
      clash_totals head_def iloc_from_def series_sum_def)
    (simp add: clash_table_def clash_row_def)

text \<open>
  Where no category among the first eight is called \<^verbatim>\<open>Others\<close>, every row has a
  category, no count is negative and the counts add up to a number an int64 holds, the
  view is the first eight entries followed by one \<^verbatim>\<open>Others\<close> entry holding the sum
  of the rest, left out when that sum is 0, and its values sum to the grand total.
\<close>

lemma top_categories_without_clash:
  assumes free: "''Others'' \<notin> fst ` set (head 8 (category_counts (data_analysis L s)))"
    and all: "\<forall>r\<in>set (data s). category r \<noteq> None"
    and ord: "ordinary (data s)"
  shows "top_categories (data_analysis L s) =
      head 8 (category_counts (data_analysis L s)) @
      (if others (data_analysis L s) \<noteq> 0 then [(''Others'', others (data_analysis L s))]
       else [])
    \<and> series_sum (top_categories (data_analysis L s)) = grand_total (data s)"
proof -
  let ?cc = "category_counts (data_analysis L s)"
  let ?rest = "others (data_analysis L s)"
  have o: "?rest = series_sum (drop 8 ?cc)"
    by (simp add: data_analysis_others iloc_from_def)
  note R = ordinary_rest [OF ord, of L]
  have "0 \<le> int_sum (drop 8 ?cc)"
    using R by (intro int_sum_nonneg) (meson in_set_dropD)
  with R have o0: "0 \<le> sint ?rest" by (simp add: o)
  have full: "grand_total (with_key category (data s)) = grand_total (data s)"
    using all by (simp add: with_key_def)
  have split: "series_sum (take 8 ?cc) + ?rest = grand_total (data s)"
    using series_sum_take_drop [of 8 ?cc] by (simp add: o category_counts_sum full)
  show ?thesis
  proof (cases "0 < sint ?rest")
    case True
    then have nz: "?rest \<noteq> 0" by auto
    have "top_categories (data_analysis L s) = take 8 ?cc @ [(''Others'', ?rest)]"
      using free True by (simp add: data_analysis_top_categories head_def setitem_absent)
    with nz split show ?thesis by (simp add: head_def series_sum_def)
  next
    case False
    with o0 have "sint ?rest = 0" by simp
    then have z: "?rest = 0" by (simp add: signed_eq_0_iff)
    then have "top_categories (data_analysis L s) = take 8 ?cc"
      by (simp add: data_analysis_top_categories head_def)
    with z split show ?thesis by (simp add: head_def)
  qed
qed

section \<open>The store of a run\<close>

lemma extends_refl: "extends h h"
  by (simp add: extends_def)

lemma extends_trans: "extends a b \<Longrightarrow> extends b c \<Longrightarrow> extends a c"
proof -
  assume ab: "extends a b" and bc: "extends b c"
  have "take (length a) c = take (length a) (take (length b) c)"
    using ab by (simp add: extends_def min_def)
  also have "\<dots> = a" using ab bc by (simp add: extends_def)
  finally show ?thesis using ab bc by (simp add: extends_def)
qed

lemma extends_append: "extends h (h @ x)"
  by (simp add: extends_def)

lemma extends_update: "length h \<le> a \<Longrightarrow> extends h ((h @ x)[a := y])"
  by (simp add: extends_def)

lemma extends_nth: "extends h h' \<Longrightarrow> a < length h \<Longrightarrow> h' ! a = h ! a"
proof -
  assume e: "extends h h'" and a: "a < length h"
  then have "take (length h) h' ! a = h' ! a" by simp
  with e show ?thesis by (simp add: extends_def)
qed

lemma extends_values_at: "extends h h' \<Longrightarrow> a < length h \<Longrightarrow> values_at h' a = values_at h a"
  using extends_nth [of h h' a] by (simp add: values_at_def extends_def)

lemma extends_table_at: "extends h h' \<Longrightarrow> a < length h \<Longrightarrow> table_at h' a = table_at h a"
  using extends_nth [of h h' a] by (simp add: table_at_def extends_def)

lemma extends_deref: "extends h h' \<Longrightarrow> buffer r < length h \<Longrightarrow> deref h' r = deref h r"
  by (simp add: deref_def extends_values_at)

lemma values_at_new: "values_at (h @ [Values vs]) (length h) = vs"
  by (simp add: values_at_def)

lemma deref_new_series:
  "deref (fst (new_series h s)) (snd (new_series h s)) = s"
  by (simp add: new_series_def deref_def values_at_new zip_map_fst_snd)

lemma zip_take_left: "zip (take n xs) ys = take n (zip xs ys)"
proof (induction xs arbitrary: n ys)
  case Nil
  then show ?case by simp
next
  case (Cons x xs)
  then show ?case by (cases n; cases ys) simp_all
qed

lemma deref_view_head: "deref h (view_head n r) = take n (deref h r)"
  by (simp add: deref_def view_head_def zip_take_left)

lemma zip_take_values: "zip ks (take (length ks) vs) = zip ks vs"
proof (induction ks arbitrary: vs)
  case Nil
  then show ?case by simp
next
  case (Cons k ks)
  then show ?case by (cases vs) simp_all
qed

lemma zip_update_position:
  "k \<in> set ks \<Longrightarrow> length ks \<le> length vs \<Longrightarrow>
   zip ks (vs[position k ks := v]) = setitem (zip ks vs) k v"
proof (induction ks arbitrary: vs)
  case Nil
  then show ?case by simp
next
  case (Cons a ks)
  then obtain y ys where vs: "vs = y # ys" by (cases vs) auto
  show ?case
  proof (cases "a = k")
    case True
    then show ?thesis by (simp add: vs)
  next
    case False
    with Cons.prems have "k \<in> set ks" "length ks \<le> length ys" by (auto simp: vs)
    from Cons.IH [OF this] False show ?thesis by (simp add: vs)
  qed
qed

lemma zip_snoc_values:
  "length ks \<le> length vs \<Longrightarrow>
   zip (ks @ [k]) (take (length ks) vs @ [v]) = zip ks vs @ [(k, v)]"
proof -
  assume "length ks \<le> length vs"
  then have "length ks = length (take (length ks) vs)" by simp
  then have "zip (ks @ [k]) (take (length ks) vs @ [v]) =
      zip ks (take (length ks) vs) @ zip [k] [v]"
    by (rule zip_append)
  then show ?thesis by (simp add: zip_take_values)
qed

lemma set_zip_fst: "length ks \<le> length vs \<Longrightarrow> fst ` set (zip ks vs) = set ks"
proof -
  assume "length ks \<le> length vs"
  then have "map fst (zip ks vs) = ks"
    by (induction ks arbitrary: vs) (auto simp: Suc_le_length_iff)
  then have "set (map fst (zip ks vs)) = set ks" by simp
  then show ?thesis by simp
qed

text \<open>What \<open>setitem_at\<close> does to the handle it is given.\<close>

lemma setitem_at_deref:
  assumes "buffer r < length h" "length (labels r) \<le> length (values_at h (buffer r))"
  shows "deref (fst (setitem_at cow h r k v)) (snd (setitem_at cow h r k v)) =
     setitem (deref h r) k v"
proof (cases "k \<in> set (labels r)")
  case True
  let ?vs = "values_at h (buffer r)"
  let ?own = "take (length (labels r)) ?vs"
  show ?thesis
  proof (cases cow)
    case True
    have "zip (labels r) (?own[position k (labels r) := v]) = setitem (zip (labels r) ?own) k v"
      using \<open>k \<in> set (labels r)\<close> assms(2) by (intro zip_update_position) simp_all
    with True \<open>k \<in> set (labels r)\<close> show ?thesis
      by (simp add: setitem_at_def deref_def values_at_new zip_take_values)
  next
    case False
    have "values_at (h[buffer r := Values (?vs[position k (labels r) := v])]) (buffer r) =
        ?vs[position k (labels r) := v]"
      using assms(1) by (simp add: values_at_def)
    with False \<open>k \<in> set (labels r)\<close> assms(2) show ?thesis
      by (simp add: setitem_at_def deref_def zip_update_position)
  qed
next
  case False
  then have "k \<notin> fst ` set (zip (labels r) (values_at h (buffer r)))"
    using assms(2) by (simp add: set_zip_fst)
  with False assms(2) show ?thesis
    by (simp add: setitem_at_def deref_def values_at_new zip_snoc_values zip_take_values
        setitem_absent)
qed

lemma setitem_at_extends:
  assumes "n \<le> buffer r" "n \<le> length h"
  shows "extends (take n h) (fst (setitem_at cow h r k v))"
proof -
  have a: "extends (take n h) h" using assms(2) by (simp add: extends_def)
  have "extends (take n h) (h[buffer r := y])" for y
    using assms by (simp add: extends_def)
  moreover have "extends (take n h) (h @ x)" for x
    using a extends_append by (rule extends_trans)
  ultimately show ?thesis
    by (simp add: setitem_at_def Let_def)
qed

lemma setitem_at_length: "length h \<le> length (fst (setitem_at cow h r k v))"
  by (simp add: setitem_at_def Let_def)

lemma setitem_at_buffer:
  "buffer r < length h \<Longrightarrow>
   buffer (snd (setitem_at cow h r k v)) < length (fst (setitem_at cow h r k v))"
  by (simp add: setitem_at_def Let_def)

text \<open>Without copy-on-write an overwrite is seen through every handle on the buffer.\<close>

lemma setitem_at_other_handle:
  assumes "cow \<or> k \<notin> set (labels r)" "buffer q < length h"
  shows "deref (fst (setitem_at cow h r k v)) q = deref h q"
proof -
  have "extends h (fst (setitem_at cow h r k v))"
    using assms(1) by (auto simp: setitem_at_def Let_def extends_append)
  then show ?thesis using assms(2) by (rule extends_deref)
qed

lemma draw_eq:
  "draw L c st =
     st\<lparr>screen := (case plot L c of None \<Rightarrow> screen st @ [Pyplot c] | Some e \<Rightarrow> screen st),
        raised := (case plot L c of None \<Rightarrow> raised st | Some e \<Rightarrow> Some e)\<rparr>"
  by (simp add: draw_def emit_def split: option.split)

lemma deref_fresh: "deref (h @ [Values vs]) \<lparr>labels = ks, buffer = length h\<rparr> = zip ks vs"
  by (simp add: deref_def values_at_new)

lemma deref_fresh_second:
  "deref (h @ [x, Values vs]) \<lparr>labels = ks, buffer = Suc (length h)\<rparr> = zip ks vs"
  by (simp add: deref_def values_at_def nth_append)

lemma deref_append: "buffer r < length h \<Longrightarrow> deref (h @ x) r = deref h r"
  using extends_deref [OF extends_append] by blast

lemma table_at_append: "a < length h \<Longrightarrow> table_at (h @ x) a = table_at h a"
  using extends_table_at [OF extends_append] by blast

lemma zip_take_fst_snd: "zip (take n (map fst s)) (map snd s) = take n s"
  by (simp add: zip_take_left zip_map_fst_snd)

lemma entry_data: "data (entry_env t) = t"
  by (simp add: entry_env_def)

lemma links_entry: "links L t (entry_run t)"
  by (simp add: links_def entry_run_def table_at_def)

lemma links_station_block: "links L t st \<Longrightarrow> links L t (station_block L st)"
  by (simp add: links_def station_block_def new_series_def view_head_def draw_eq emit_def
      Let_def deref_fresh deref_append table_at_append zip_take_fst_snd less_SucI
      data_analysis_station_counts station_totals_def head_def entry_data)

lemma links_year_block: "links L t st \<Longrightarrow> links L t (year_block L st)"
  by (simp add: links_def year_block_def new_series_def draw_eq emit_def
      Let_def deref_fresh deref_append table_at_append zip_map_fst_snd less_SucI
      data_analysis_yearly_trend entry_data)

lemma links_locations_block: "links L t st \<Longrightarrow> links L t (locations_block L st)"
  by (simp add: links_def locations_block_def new_series_def emit_def
      Let_def deref_fresh deref_append table_at_append zip_map_fst_snd less_SucI
      data_analysis_station_locations entry_data)

lemma links_hotspot_block: "links L t st \<Longrightarrow> links L t (hotspot_block L st)"
  by (simp add: links_def hotspot_block_def new_series_def view_head_def emit_def
      Let_def deref_fresh deref_fresh_second deref_append table_at_append zip_map_fst_snd
      zip_take_fst_snd less_SucI data_analysis_hotspot_data head_def entry_data)

lemma links_category_block:
  assumes inv: "links L t st"
  shows "links L t (category_block L st)"
proof -
  let ?val = "data_analysis L (entry_env t)"
  let ?CC = "sort_values_desc (tie_category L) (groupby_sum category t)"
  let ?h1 = "heap st @ [Values (map snd ?CC)]"
  let ?cc = "\<lparr>labels = map fst ?CC, buffer = length (heap st)\<rparr> :: string handle"
  let ?top = "view_head 8 ?cc"
  let ?rest = "series_sum (iloc_from 8 ?CC)"
  have tab: "table_at (heap st) (data_var st) = t" and dv: "data_var st < length (heap st)"
    using inv by (simp_all add: links_def)
  have cc_val: "category_counts ?val = ?CC"
    by (simp add: data_analysis_category_counts entry_data)
  have rest_val: "others ?val = ?rest"
    by (simp add: data_analysis_others cc_val)
  have d_cc: "deref ?h1 ?cc = ?CC"
    by (simp add: deref_fresh zip_map_fst_snd)
  have d_top: "deref ?h1 ?top = take 8 ?CC"
    by (simp add: deref_view_head d_cc)
  have b_top: "buffer ?top < length ?h1" "buffer ?cc < length ?h1"
    by (simp_all add: view_head_def)
  have l_top: "length (labels ?top) \<le> length (values_at ?h1 (buffer ?top))"
    by (simp add: view_head_def values_at_new)
  obtain h2 top' where res:
    "(if 0 < sint ?rest then setitem_at (copy_on_write L) ?h1 ?top ''Others'' ?rest
      else (?h1, ?top)) = (h2, top')"
    by fastforce
  have block: "category_block L st =
      draw L (Pie (deref h2 top'))
        (emit [Subheader ''Crime by Category (Clear View)'']
           (st\<lparr>heap := h2, category_counts_var := Some ?cc,
               top_categories_var := Some top', others_var := Some ?rest\<rparr>))"
  proof (cases "0 < sint ?rest")
    case True
    with res have "setitem_at (copy_on_write L) ?h1 ?top ''Others'' ?rest = (h2, top')"
      by simp
    with True show ?thesis
      by (simp add: category_block_def new_series_def Let_def tab d_cc)
  next
    case False
    with res have "h2 = ?h1" "top' = ?top" by simp_all
    with False show ?thesis
      by (simp add: category_block_def new_series_def Let_def tab d_cc)
  qed
  have ext1: "extends (heap st) ?h1" by (rule extends_append)
  have ext: "extends (heap st) h2"
  proof (cases "0 < sint ?rest")
    case True
    then have r: "setitem_at (copy_on_write L) ?h1 ?top ''Others'' ?rest = (h2, top')"
      using res by simp
    have "extends (take (length (heap st)) ?h1)
        (fst (setitem_at (copy_on_write L) ?h1 ?top ''Others'' ?rest))"
      by (rule setitem_at_extends) (simp_all add: view_head_def)
    then show ?thesis by (simp add: r)
  next
    case False
    with res ext1 show ?thesis by simp
  qed
  have len: "length ?h1 \<le> length h2"
  proof (cases "0 < sint ?rest")
    case True
    then have r: "setitem_at (copy_on_write L) ?h1 ?top ''Others'' ?rest = (h2, top')"
      using res by simp
    from setitem_at_length [of ?h1 "copy_on_write L" ?top "''Others''" ?rest]
    show ?thesis by (simp add: r)
  next
    case False
    with res show ?thesis by simp
  qed
  have top_ok: "buffer top' < length h2 \<and> deref h2 top' = top_categories ?val"
  proof (cases "0 < sint ?rest")
    case True
    then have r: "setitem_at (copy_on_write L) ?h1 ?top ''Others'' ?rest = (h2, top')"
      using res by simp
    have "buffer top' < length h2"
      using setitem_at_buffer [OF b_top(1), of "copy_on_write L" "''Others''" ?rest]
      by (simp add: r)
    moreover have "deref h2 top' = setitem (take 8 ?CC) ''Others'' ?rest"
      using setitem_at_deref [OF b_top(1) l_top, of "copy_on_write L" "''Others''" ?rest]
      by (simp add: r d_top)
    ultimately show ?thesis
      using True by (simp add: data_analysis_top_categories cc_val rest_val head_def)
  next
    case False
    with res have "h2 = ?h1" "top' = ?top" by simp_all
    with False d_top b_top(1) show ?thesis
      by (simp add: data_analysis_top_categories cc_val rest_val head_def)
  qed
  have cc_ok: "deref h2 ?cc = category_counts ?val"
    if "copy_on_write L \<or> ''Others'' \<notin> fst ` set (head 8 (category_counts ?val))
        \<or> \<not> 0 < sint (others ?val)"
  proof (cases "0 < sint ?rest")
    case True
    then have r: "setitem_at (copy_on_write L) ?h1 ?top ''Others'' ?rest = (h2, top')"
      using res by simp
    have "set (take 8 (map fst ?CC)) = set (map fst (take 8 ?CC))"
      by (simp only: take_map)
    then have "set (labels ?top) = fst ` set (take 8 ?CC)"
      by (simp add: view_head_def)
    with that True have "copy_on_write L \<or> ''Others'' \<notin> set (labels ?top)"
      by (simp add: cc_val rest_val head_def)
    from setitem_at_other_handle [OF this b_top(2), of ?rest] show ?thesis
      by (simp add: r d_cc cc_val)
  next
    case False
    with res have "h2 = ?h1" by simp
    then show ?thesis by (simp add: d_cc cc_val)
  qed
  have h2_len: "length (heap st) < length h2" using len by simp
  have keep: "buffer r < length h2 \<and> deref h2 r = x"
    if "buffer r < length (heap st) \<and> deref (heap st) r = x" for r :: "'a handle" and x
    using that extends_deref [OF ext, of r] h2_len by simp
  let ?st' = "category_block L st"
  have f: "heap ?st' = h2" "data_var ?st' = data_var st"
    "station_counts_var ?st' = station_counts_var st"
    "category_counts_var ?st' = Some ?cc" "top_categories_var ?st' = Some top'"
    "others_var ?st' = Some ?rest" "yearly_trend_var ?st' = yearly_trend_var st"
    "station_locations_var ?st' = station_locations_var st"
    "hotspot_data_var ?st' = hotspot_data_var st"
    by (simp_all add: block draw_eq emit_def)
  have a: "data_var st < length h2" using dv h2_len by simp
  have b: "table_at h2 (data_var st) = t"
    using extends_table_at [OF ext dv] tab by simp
  have c: "buffer r < length h2 \<and> deref h2 r = station_counts ?val"
    if "station_counts_var st = Some r" for r
    using inv that by (intro keep) (simp add: links_def)
  have d: "buffer r < length h2 \<and> deref h2 r = yearly_trend ?val"
    if "yearly_trend_var st = Some r" for r
    using inv that by (intro keep) (simp add: links_def)
  have e: "buffer r < length h2 \<and> deref h2 r = station_locations ?val"
    if "station_locations_var st = Some r" for r
    using inv that by (intro keep) (simp add: links_def)
  have g: "buffer r < length h2 \<and> deref h2 r = hotspot_data ?val"
    if "hotspot_data_var st = Some r" for r
    using inv that by (intro keep) (simp add: links_def)
  have cc_b: "buffer ?cc < length h2" using h2_len by simp
  show ?thesis
    unfolding links_def f
    using a b c d e g top_ok cc_ok cc_b rest_val by simp
qed

lemma next_block_links:
  "(\<And>st. links L t st \<Longrightarrow> links L t (f st)) \<Longrightarrow> links L t st \<Longrightarrow> links L t (next_block f st)"
  by (simp add: next_block_def)

lemma links_analysis_run: "links L t st \<Longrightarrow> links L t (analysis_run L st)"
  unfolding analysis_run_def
  by (intro next_block_links links_station_block links_category_block links_year_block
      links_locations_block links_hotspot_block)

lemma category_block_heap:
  "heap (category_block L st) =
     (let t = table_at (heap st) (data_var st);
          CC = sort_values_desc (tie_category L) (groupby_sum category t);
          h1 = heap st @ [Values (map snd CC)];
          top = view_head 8 \<lparr>labels = map fst CC, buffer = length (heap st)\<rparr>;
          rest = series_sum (iloc_from 8 CC)
      in if 0 < sint rest then fst (setitem_at (copy_on_write L) h1 top ''Others'' rest) else h1)"
  by (simp add: category_block_def new_series_def Let_def draw_eq emit_def deref_fresh
      zip_map_fst_snd split_beta)

lemma category_block_extends: "extends (heap st) (heap (category_block L st))"
proof -
  let ?CC = "sort_values_desc (tie_category L) (groupby_sum category (table_at (heap st) (data_var st)))"
  let ?h1 = "heap st @ [Values (map snd ?CC)]"
  let ?top = "view_head 8 \<lparr>labels = map fst ?CC, buffer = length (heap st)\<rparr> :: string handle"
  have "extends (take (length (heap st)) ?h1) (fst (setitem_at cow ?h1 ?top k v))" for cow k v
    by (rule setitem_at_extends) (simp_all add: view_head_def)
  then have "extends (heap st) (fst (setitem_at cow ?h1 ?top k v))" for cow k v
    by simp
  then show ?thesis
    by (simp add: category_block_heap Let_def extends_append)
qed

lemma block_extends:
  "extends (heap st) (heap (station_block L st))"
  "extends (heap st) (heap (year_block L st))"
  "extends (heap st) (heap (locations_block L st))"
  "extends (heap st) (heap (hotspot_block L st))"
  using extends_append [of "heap st"]
  by (simp_all add: station_block_def year_block_def locations_block_def hotspot_block_def
      new_series_def Let_def draw_eq emit_def)

lemma block_data_var:
  "data_var (station_block L st) = data_var st"
  "data_var (category_block L st) = data_var st"
  "data_var (year_block L st) = data_var st"
  "data_var (locations_block L st) = data_var st"
  "data_var (hotspot_block L st) = data_var st"
  by (simp_all add: station_block_def category_block_def year_block_def locations_block_def
      hotspot_block_def new_series_def Let_def draw_eq emit_def split_beta)

lemma next_block_extends:
  "(\<And>st. extends (heap st) (heap (f st))) \<Longrightarrow> extends (heap st) (heap (next_block f st))"
  by (simp add: next_block_def extends_refl)

lemma next_block_data_var:
  "(\<And>st. data_var (f st) = data_var st) \<Longrightarrow> data_var (next_block f st) = data_var st"
  by (simp add: next_block_def)

lemma analysis_run_extends: "extends (heap st) (heap (analysis_run L st))"
proof -
  let ?a = "next_block (station_block L) st"
  let ?b = "next_block (category_block L) ?a"
  let ?c = "next_block (year_block L) ?b"
  let ?d = "next_block (locations_block L) ?c"
  have a: "extends (heap st) (heap ?a)" by (intro next_block_extends block_extends)
  have b: "extends (heap ?a) (heap ?b)" by (intro next_block_extends category_block_extends)
  have c: "extends (heap ?b) (heap ?c)" by (intro next_block_extends block_extends)
  have d: "extends (heap ?c) (heap ?d)" by (intro next_block_extends block_extends)
  have e: "extends (heap ?d) (heap (next_block (hotspot_block L) ?d))"
    by (intro next_block_extends block_extends)
  from extends_trans [OF extends_trans [OF extends_trans [OF extends_trans [OF a b] c] d] e]
  show ?thesis by (simp add: analysis_run_def)
qed

lemma analysis_run_data_var: "data_var (analysis_run L st) = data_var st"
  by (simp add: analysis_run_def next_block_data_var block_data_var)

text \<open>
  Claim C9. A run of the analysis branch, with its chart, table and map calls, leaves
  the loaded table as it was, whether or not a chart raises and with or without
  copy-on-write: the run only adds objects to the store, and its one write in place
  (line 121) goes to a buffer that line 114 created. Every object that existed when the
  branch was entered is unchanged, the table among them.
\<close>

theorem table_unchanged:
  assumes "data_var st < length (heap st)"
  shows "data_var (analysis_run L st) = data_var st
    \<and> heap (analysis_run L st) ! data_var st = heap st ! data_var st
    \<and> table_at (heap (analysis_run L st)) (data_var (analysis_run L st)) =
        table_at (heap st) (data_var st)
    \<and> take (length (heap st)) (heap (analysis_run L st)) = heap st"
  using assms analysis_run_extends [of st L]
  by (simp add: analysis_run_data_var extends_nth extends_table_at) (simp add: extends_def)

lemma shown_of:
  "\<forall>r. v = Some r \<longrightarrow> buffer r < n \<and> deref h r = x \<Longrightarrow> v \<noteq> None \<longrightarrow> shown h v = x"
  by (cases v) (simp_all add: shown_def)

lemma shown_of_if:
  "\<forall>r. v = Some r \<longrightarrow> buffer r < n \<and> (c \<longrightarrow> deref h r = x) \<Longrightarrow>
   v \<noteq> None \<and> c \<longrightarrow> shown h v = x"
  by (cases v) (simp_all add: shown_def)

text \<open>
  The run and the values: in the state a run ends in, every variable that is bound
  shows the value its statement gives it, and a run that no chart has ended has bound
  them all.
\<close>

lemma run_binds_values:
  "(station_counts_var (analysis_run L (entry_run t)) \<noteq> None \<longrightarrow>
      shown (heap (analysis_run L (entry_run t))) (station_counts_var (analysis_run L (entry_run t)))
      = station_counts (data_analysis L (entry_env t)))
   \<and> (top_categories_var (analysis_run L (entry_run t)) \<noteq> None \<longrightarrow>
      shown (heap (analysis_run L (entry_run t))) (top_categories_var (analysis_run L (entry_run t)))
      = top_categories (data_analysis L (entry_env t)))
   \<and> (others_var (analysis_run L (entry_run t)) \<noteq> None \<longrightarrow>
      others_var (analysis_run L (entry_run t)) = Some (others (data_analysis L (entry_env t))))
   \<and> (yearly_trend_var (analysis_run L (entry_run t)) \<noteq> None \<longrightarrow>
      shown (heap (analysis_run L (entry_run t))) (yearly_trend_var (analysis_run L (entry_run t)))
      = yearly_trend (data_analysis L (entry_env t)))
   \<and> (station_locations_var (analysis_run L (entry_run t)) \<noteq> None \<longrightarrow>
      shown (heap (analysis_run L (entry_run t)))
        (station_locations_var (analysis_run L (entry_run t)))
      = station_locations (data_analysis L (entry_env t)))
   \<and> (hotspot_data_var (analysis_run L (entry_run t)) \<noteq> None \<longrightarrow>
      shown (heap (analysis_run L (entry_run t))) (hotspot_data_var (analysis_run L (entry_run t)))
      = hotspot_data (data_analysis L (entry_env t)))
   \<and> (category_counts_var (analysis_run L (entry_run t)) \<noteq> None
       \<and> (copy_on_write L
           \<or> ''Others'' \<notin> fst ` set (head 8 (category_counts (data_analysis L (entry_env t))))
           \<or> \<not> 0 < sint (others (data_analysis L (entry_env t)))) \<longrightarrow>
      shown (heap (analysis_run L (entry_run t)))
        (category_counts_var (analysis_run L (entry_run t)))
      = category_counts (data_analysis L (entry_env t)))"
proof -
  define fin where "fin = analysis_run L (entry_run t)"
  define val where "val = data_analysis L (entry_env t)"
  have "links L t fin"
    unfolding fin_def by (rule links_analysis_run) (rule links_entry)
  then have K:
    "\<forall>r. station_counts_var fin = Some r \<longrightarrow>
        buffer r < length (heap fin) \<and> deref (heap fin) r = station_counts val"
    "\<forall>r. category_counts_var fin = Some r \<longrightarrow>
        buffer r < length (heap fin)
        \<and> (copy_on_write L \<or> ''Others'' \<notin> fst ` set (head 8 (category_counts val))
            \<or> \<not> 0 < sint (others val) \<longrightarrow> deref (heap fin) r = category_counts val)"
    "\<forall>r. top_categories_var fin = Some r \<longrightarrow>
        buffer r < length (heap fin) \<and> deref (heap fin) r = top_categories val"
    "\<forall>v. others_var fin = Some v \<longrightarrow> v = others val"
    "\<forall>r. yearly_trend_var fin = Some r \<longrightarrow>
        buffer r < length (heap fin) \<and> deref (heap fin) r = yearly_trend val"
    "\<forall>r. station_locations_var fin = Some r \<longrightarrow>
        buffer r < length (heap fin) \<and> deref (heap fin) r = station_locations val"
    "\<forall>r. hotspot_data_var fin = Some r \<longrightarrow>
        buffer r < length (heap fin) \<and> deref (heap fin) r = hotspot_data val"
    unfolding links_def val_def by blast+
  have o: "others_var fin \<noteq> None \<longrightarrow> others_var fin = Some (others val)"
    using K(4) by (cases "others_var fin") simp_all
  show ?thesis
    unfolding fin_def [symmetric] val_def [symmetric]
    using shown_of [OF K(1)] shown_of [OF K(3)] o shown_of [OF K(5)] shown_of [OF K(6)]
      shown_of [OF K(7)] shown_of_if [OF K(2)]
    by (intro conjI) assumption+
qed

lemma next_block_ran:
  "raised (next_block f st) = None \<Longrightarrow> raised st = None \<and> next_block f st = f st"
  by (cases "raised st") (simp_all add: next_block_def)

lemma station_block_vars: "station_counts_var (station_block L st) \<noteq> None"
  by (simp add: station_block_def new_series_def Let_def draw_eq emit_def)

lemma category_block_vars:
  "category_counts_var (category_block L st) \<noteq> None
   \<and> top_categories_var (category_block L st) \<noteq> None
   \<and> others_var (category_block L st) \<noteq> None
   \<and> station_counts_var (category_block L st) = station_counts_var st"
  by (simp add: category_block_def new_series_def Let_def draw_eq emit_def split_beta)

lemma year_block_vars:
  "yearly_trend_var (year_block L st) \<noteq> None
   \<and> category_counts_var (year_block L st) = category_counts_var st
   \<and> top_categories_var (year_block L st) = top_categories_var st
   \<and> others_var (year_block L st) = others_var st
   \<and> station_counts_var (year_block L st) = station_counts_var st"
  by (simp add: year_block_def new_series_def Let_def draw_eq emit_def)

lemma locations_block_vars:
  "station_locations_var (locations_block L st) \<noteq> None
   \<and> yearly_trend_var (locations_block L st) = yearly_trend_var st
   \<and> category_counts_var (locations_block L st) = category_counts_var st
   \<and> top_categories_var (locations_block L st) = top_categories_var st
   \<and> others_var (locations_block L st) = others_var st
   \<and> station_counts_var (locations_block L st) = station_counts_var st"
  by (simp add: locations_block_def new_series_def Let_def emit_def)

lemma hotspot_block_vars:
  "hotspot_data_var (hotspot_block L st) \<noteq> None
   \<and> station_locations_var (hotspot_block L st) = station_locations_var st
   \<and> yearly_trend_var (hotspot_block L st) = yearly_trend_var st
   \<and> category_counts_var (hotspot_block L st) = category_counts_var st
   \<and> top_categories_var (hotspot_block L st) = top_categories_var st
   \<and> others_var (hotspot_block L st) = others_var st
   \<and> station_counts_var (hotspot_block L st) = station_counts_var st"
  by (simp add: hotspot_block_def new_series_def Let_def emit_def)

lemma completed_run_binds_all:
  assumes "raised (analysis_run L st) = None"
  shows "station_counts_var (analysis_run L st) \<noteq> None
     \<and> category_counts_var (analysis_run L st) \<noteq> None
     \<and> top_categories_var (analysis_run L st) \<noteq> None
     \<and> others_var (analysis_run L st) \<noteq> None
     \<and> yearly_trend_var (analysis_run L st) \<noteq> None
     \<and> station_locations_var (analysis_run L st) \<noteq> None
     \<and> hotspot_data_var (analysis_run L st) \<noteq> None"
proof -
  let ?a = "next_block (station_block L) st"
  let ?b = "next_block (category_block L) ?a"
  let ?c = "next_block (year_block L) ?b"
  let ?d = "next_block (locations_block L) ?c"
  let ?e = "next_block (hotspot_block L) ?d"
  have fin: "analysis_run L st = ?e" by (simp add: analysis_run_def)
  from assms have e: "raised ?d = None" "?e = hotspot_block L ?d"
    using next_block_ran [of "hotspot_block L" ?d] by (simp_all add: fin)
  from e(1) have d: "raised ?c = None" "?d = locations_block L ?c"
    using next_block_ran [of "locations_block L" ?c] by simp_all
  from d(1) have c: "raised ?b = None" "?c = year_block L ?b"
    using next_block_ran [of "year_block L" ?b] by simp_all
  from c(1) have b: "raised ?a = None" "?b = category_block L ?a"
    using next_block_ran [of "category_block L" ?a] by simp_all
  from b(1) have a: "?a = station_block L st"
    using next_block_ran [of "station_block L" st] by simp
  have "analysis_run L st =
      hotspot_block L (locations_block L (year_block L (category_block L (station_block L st))))"
    using fin e(2) d(2) c(2) b(2) a by simp
  then show ?thesis
    by (simp add: hotspot_block_vars locations_block_vars year_block_vars
        category_block_vars station_block_vars)
qed

section \<open>The empty table, and a dataset that cannot be loaded\<close>

theorem table_unchanged_witness:
  "data_var (entry_run spec_example) < length (heap (entry_run spec_example))
   \<and> heap (analysis_run (quiet_library False) (entry_run spec_example)) ! 0 =
       Table_object spec_example
   \<and> table_at (heap (analysis_run (quiet_library False) (entry_run spec_example))) 0 =
       spec_example"
proof -
  have a: "data_var (entry_run spec_example) < length (heap (entry_run spec_example))"
    by (simp add: entry_run_def)
  have e: "heap (entry_run spec_example) = [Table_object spec_example]"
    "data_var (entry_run spec_example) = 0"
    by (simp_all add: entry_run_def)
  have t0: "table_at [Table_object spec_example] 0 = spec_example"
    by (simp add: table_at_def)
  show ?thesis
    using table_unchanged [OF a, of "quiet_library False"] a
    by (elim conjE) (simp add: e t0)
qed

lemma station_block_empty:
  assumes "plot L (Bar []) = Some e"
  shows "station_block L (entry_run []) =
     (entry_run [])\<lparr>heap := [Table_object [], Values []],
        station_counts_var := Some \<lparr>labels = [], buffer = 1\<rparr>,
        screen := [Subheader ''Crime by Police Station''], raised := Some e\<rparr>"
  using assms
  by (simp add: station_block_def new_series_def view_head_def draw_eq emit_def Let_def
      entry_run_def table_at_def groupby_sum_def sort_values_desc_def deref_def values_at_def)

text \<open>
  Claim C7, on the table with no rows. Line 101 binds \<open>station_counts\<close> to an empty
  series. If the bar chart of an empty series raises, the run ends at line 104: the
  other four groupings are never computed, their variables stay unbound, and the page
  shows its title, the first subheader and the exception.
\<close>

theorem empty_table_stops_at_first_chart:
  assumes "plot L (Bar []) = Some e"
  shows "raised (analysis_run L (entry_run [])) = Some e
    \<and> shown (heap (analysis_run L (entry_run [])))
        (station_counts_var (analysis_run L (entry_run []))) = []
    \<and> category_counts_var (analysis_run L (entry_run [])) = None
    \<and> top_categories_var (analysis_run L (entry_run [])) = None
    \<and> others_var (analysis_run L (entry_run [])) = None
    \<and> yearly_trend_var (analysis_run L (entry_run [])) = None
    \<and> station_locations_var (analysis_run L (entry_run [])) = None
    \<and> hotspot_data_var (analysis_run L (entry_run [])) = None
    \<and> app L (Inr []) folder Data_Analysis =
        [Title ''Data Analysis & Trends'', Subheader ''Crime by Police Station'', Uncaught e]"
proof -
  have "analysis_run L (entry_run []) = station_block L (entry_run [])"
    by (simp add: analysis_run_def next_block_def station_block_empty [OF assms])
      (simp add: entry_run_def)
  then have fin: "analysis_run L (entry_run []) =
     (entry_run [])\<lparr>heap := [Table_object [], Values []],
        station_counts_var := Some \<lparr>labels = [], buffer = 1\<rparr>,
        screen := [Subheader ''Crime by Police Station''], raised := Some e\<rparr>"
    by (simp only: station_block_empty [OF assms])
  have page: "analysis_page L (Some []) =
      ([Title ''Data Analysis & Trends'', Subheader ''Crime by Police Station''], Some e)"
    by (simp add: analysis_page_def Let_def fin)
  have "app L (Inr []) folder Data_Analysis =
      [Title ''Data Analysis & Trends'', Subheader ''Crime by Police Station'', Uncaught e]"
    by (simp add: app_def try_load_def load_data_def page)
  then show ?thesis
    unfolding fin by (simp add: entry_run_def shown_def deref_def)
qed

theorem empty_table_stops_at_first_chart_witness:
  "plot empty_bar_raises (Bar []) = Some TypeError
   \<and> raised (analysis_run empty_bar_raises (entry_run [])) = Some TypeError
   \<and> yearly_trend_var (analysis_run empty_bar_raises (entry_run [])) = None
   \<and> hotspot_data_var (analysis_run empty_bar_raises (entry_run [])) = None
   \<and> app empty_bar_raises (Inr []) None Data_Analysis =
       [Title ''Data Analysis & Trends'', Subheader ''Crime by Police Station'',
        Uncaught TypeError]"
proof -
  have a: "plot empty_bar_raises (Bar []) = Some TypeError"
    by (simp add: empty_bar_raises_def quiet_library_def)
  show ?thesis
    using empty_table_stops_at_first_chart [OF a, of None] a by simp
qed

text \<open>
  The five groupings themselves, as values, are empty on the table with no rows.
\<close>

lemma empty_table_values:
  "station_counts (data_analysis L (entry_env [])) = []
   \<and> top_categories (data_analysis L (entry_env [])) = []
   \<and> yearly_trend (data_analysis L (entry_env [])) = []
   \<and> station_locations (data_analysis L (entry_env [])) = []
   \<and> hotspot_data (data_analysis L (entry_env [])) = []"
  by (simp add: data_analysis_station_counts data_analysis_top_categories
      data_analysis_others data_analysis_category_counts data_analysis_yearly_trend
      data_analysis_station_locations data_analysis_hotspot_data station_totals_def
      groupby_sum_def sort_values_desc_def head_def iloc_from_def series_sum_def entry_data)

text \<open>
  Claim C8. Whatever \<^verbatim>\<open>read_csv\<close> raises, \<open>data\<close> is bound to \<^verbatim>\<open>None\<close>; loading
  gives \<^verbatim>\<open>None\<close> or the table that was read and nothing else. With \<^verbatim>\<open>None\<close>
  the Dataset Overview and the Data Analysis page each show their title and one warning,
  and Home and About show what they show when the table is there.
\<close>

theorem unavailable_dataset:
  "try_load (Inl e) = None
   \<and> (try_load read_csv = None \<or> (\<exists>t. read_csv = Inr t \<and> try_load read_csv = Some t))
   \<and> app L (Inl e) folder Dataset_Overview =
       [Title ''Dataset Overview'',
        Warning ''Dataset not found. Please add crime_data.csv in the data folder.''] @ footer
   \<and> app L (Inl e) folder Data_Analysis =
       [Title ''Data Analysis & Trends'', Warning ''No data available for analysis.''] @ footer
   \<and> app L (Inl e) folder Home = home_page @ footer
   \<and> app L (Inl e) folder Home = app L (Inr t) folder Home
   \<and> app L (Inl e) folder About_Research = about_page @ footer
   \<and> app L (Inl e) folder About_Research = app L (Inr t) folder About_Research"
proof -
  have "try_load read_csv = None \<or> (\<exists>t. read_csv = Inr t \<and> try_load read_csv = Some t)"
    by (cases read_csv) (simp_all add: try_load_def load_data_def)
  moreover have "try_load (Inl e) = None"
    by (simp add: try_load_def load_data_def)
  ultimately show ?thesis
    by (simp add: app_def dataset_overview_def analysis_page_def)
qed

theorem unavailable_dataset_witness:
  "try_load (Inl FileNotFoundError) = None
   \<and> app (quiet_library True) (Inl FileNotFoundError) None Dataset_Overview =
       [Title ''Dataset Overview'',
        Warning ''Dataset not found. Please add crime_data.csv in the data folder.'',
        Markdown Rule, Markdown Copyright]
   \<and> app (quiet_library True) (Inl FileNotFoundError) None Data_Analysis =
       [Title ''Data Analysis & Trends'', Warning ''No data available for analysis.'',
        Markdown Rule, Markdown Copyright]
   \<and> app (quiet_library True) (Inl FileNotFoundError) None Home =
       [Title ''Crime Data Analysis Dashboard'',
        Subheader ''Exploratory Analysis of Crime Patterns in Mpumalanga'',
        Markdown Welcome, Image ''assets/cover.jpeg'' ''Crime Analysis Overview'',
        Markdown Rule, Markdown Copyright]
   \<and> app (quiet_library True) (Inl FileNotFoundError) None About_Research =
       [Title ''About This Research'', Markdown About_this_research,
        Markdown Rule, Markdown Copyright]"
  using unavailable_dataset
    [of FileNotFoundError "Inl FileNotFoundError" "quiet_library True" None "[]"]
  by (simp add: footer_def home_page_def about_page_def)

lemma clash_sorted:
  "sort_values_desc tie (groupby_sum category clash_table) =
     [(''Theft'', 90), (''Assault'', 80), (''Burglary'', 70), (''Robbery'', 60),
      (''Fraud'', 50), (''Arson'', 40), (''Others'', 30), (''Vandalism'', 20),
      (''Stalking'', 10)]"
  by (simp add: clash_table_def clash_row_def groupby_sum_def sort_values_desc_def)

text \<open>
  At the nine-category table, without copy-on-write, \<open>category_counts\<close> itself shows
  10 for \<^verbatim>\<open>Others\<close> once line 121 has run; with copy-on-write it keeps 30.
\<close>

lemma line_121_writes_through_view:
  "shown (heap (category_block (quiet_library False) (entry_run clash_table)))
     (category_counts_var (category_block (quiet_library False) (entry_run clash_table))) =
     [(''Theft'', 90), (''Assault'', 80), (''Burglary'', 70), (''Robbery'', 60),
      (''Fraud'', 50), (''Arson'', 40), (''Others'', 10), (''Vandalism'', 20),
      (''Stalking'', 10)]
   \<and> shown (heap (category_block (quiet_library True) (entry_run clash_table)))
     (category_counts_var (category_block (quiet_library True) (entry_run clash_table))) =
     [(''Theft'', 90), (''Assault'', 80), (''Burglary'', 70), (''Robbery'', 60),
      (''Fraud'', 50), (''Arson'', 40), (''Others'', 30), (''Vandalism'', 20),
      (''Stalking'', 10)]"
proof -
  have q: "tie_category (quiet_library c) = (\<lambda>e. length (fst e))"
    "copy_on_write (quiet_library c) = c" "plot (quiet_library c) = (\<lambda>c. None)" for c
    by (simp_all add: quiet_library_def)
  show ?thesis
    by (simp add: category_block_def Let_def q entry_run_def table_at_def clash_sorted new_series_def view_head_def
        deref_def values_at_def iloc_from_def series_sum_def setitem_at_def draw_eq emit_def
        shown_def)
qed

end
